theory Spec2Isabelle
  imports Main "HOL-Library.Char_ord" "HOL-Library.List_Lexorder" "HOL-Library.Multiset"
begin

unbundle bit_operations_syntax

section \<open>Data model\<close>

text \<open>
  The Go struct \<^verbatim>\<open>Holiday\<close> of scraper.go. A Go string is a sequence of bytes, compared
  bytewise; \<open>string\<close> is a list of 8-bit characters, ordered by byte value
  (\<open>Char_ord\<close>) and lexicographically as lists (\<open>List_Lexorder\<close>), which is Go's
  \<^verbatim>\<open><\<close> on strings. A nil slice and an empty slice are both the empty list.
\<close>

record Holiday =
  Date :: string
  Day :: string
  Name :: string
  States :: "string list"

section \<open>Consolidator\<close>

text \<open>
  \<^verbatim>\<open>unique\<close>: one pass over the input with the map \<^verbatim>\<open>seen\<close> (a missing key reads as
  false) and the slice \<^verbatim>\<open>out\<close> that grows at its end.
\<close>

fun unique_loop :: "(string \<Rightarrow> bool) \<Rightarrow> string list \<Rightarrow> string list \<Rightarrow> string list" where
  "unique_loop seen out [] = out"
| "unique_loop seen out (s # input) =
     (if \<not> seen s then unique_loop (seen(s := True)) (out @ [s]) input
      else unique_loop seen out input)"

definition unique :: "string list \<Rightarrow> string list" where
  "unique input = unique_loop (\<lambda>_. False) [] input"

text \<open>
  The first loop of \<^verbatim>\<open>Consolidate\<close>. The map \<^verbatim>\<open>merged\<close> is a partial function from
  keys to records; the body of the loop is \<open>merge_step\<close>.
\<close>

definition merge_key :: "Holiday \<Rightarrow> string" where
  "merge_key h = Date h @ ''|'' @ Name h"

definition merge_step :: "(string \<rightharpoonup> Holiday) \<Rightarrow> Holiday \<Rightarrow> (string \<rightharpoonup> Holiday)" where
  "merge_step merged h =
     (let key = merge_key h in
      case merged key of
        Some existing \<Rightarrow> merged(key \<mapsto> existing\<lparr>States := unique (States existing @ States h)\<rparr>)
      | None \<Rightarrow> merged(key \<mapsto> h\<lparr>States := unique (States h)\<rparr>))"

definition merge_loop :: "Holiday list \<Rightarrow> (string \<rightharpoonup> Holiday)" where
  "merge_loop holidays = foldl merge_step Map.empty holidays"

text \<open>
  The second loop ranges over the map. Go leaves the order of that iteration to the
  runtime, so the order is an argument of the model: \<open>ks\<close> lists the keys in the order
  in which the runtime visits them. It is an order of iteration over \<open>m\<close> when it
  holds every key of \<open>m\<close> once.
\<close>

definition iteration_of :: "string list \<Rightarrow> (string \<rightharpoonup> Holiday) \<Rightarrow> bool" where
  "iteration_of ks m \<longleftrightarrow> distinct ks \<and> set ks = dom m"

definition range_values :: "string list \<Rightarrow> (string \<rightharpoonup> Holiday) \<Rightarrow> Holiday list" where
  "range_values ks m = List.map_filter m ks"

text \<open>
  \<^verbatim>\<open>sort.Slice\<close> belongs to Go's standard library. The model is its insertion sort,
  which is what the library runs on a slice of at most 12 elements: every element in
  turn moves towards the front while it is less than its predecessor, so it comes to
  stand in front of the elements of the sorted front that are greater. On a longer
  slice the library switches to a quicksort that may leave records of equal date in
  another order; since the order in which the records reach the sort is arbitrary
  already (\<open>ks\<close>), every result of that sort is a result of the model for some \<open>ks\<close>.
\<close>

fun insert_less :: "('a \<Rightarrow> 'a \<Rightarrow> bool) \<Rightarrow> 'a \<Rightarrow> 'a list \<Rightarrow> 'a list" where
  "insert_less lt x [] = [x]"
| "insert_less lt x (y # ys) =
     (if lt x y then x # y # ys else y # insert_less lt x ys)"

definition sort_Slice :: "('a \<Rightarrow> 'a \<Rightarrow> bool) \<Rightarrow> 'a list \<Rightarrow> 'a list" where
  "sort_Slice lt xs = foldl (\<lambda>front x. insert_less lt x front) [] xs"

definition Consolidate :: "string list \<Rightarrow> Holiday list \<Rightarrow> Holiday list" where
  "Consolidate ks holidays =
     sort_Slice (\<lambda>a b. Date a < Date b) (range_values ks (merge_loop holidays))"

section \<open>Date Normalizer\<close>

text \<open>
  \<^verbatim>\<open>fmt.Sprintf\<close> with the verbs \<^verbatim>\<open>%d\<close> and \<^verbatim>\<open>%02d\<close>: the decimal digits of an integer,
  a minus sign in front of a negative one, and zeros in front up to a width of two.
\<close>

definition digit_char :: "nat \<Rightarrow> char" where
  "digit_char n = char_of (48 + n)"

fun digits :: "nat \<Rightarrow> string" where
  "digits n = (if n < 10 then [digit_char n] else digits (n div 10) @ [digit_char (n mod 10)])"

declare digits.simps [simp del]

definition Sprintf_d :: "int \<Rightarrow> string" where
  "Sprintf_d n = (if n < 0 then CHR ''-'' # digits (nat (- n)) else digits (nat n))"

definition Sprintf_02d :: "int \<Rightarrow> string" where
  "Sprintf_02d n = (let s = Sprintf_d n in replicate (2 - length s) CHR ''0'' @ s)"

text \<open>
  \<^verbatim>\<open>strings.ReplaceAll\<close> for a pattern of one byte, which is how the source calls it.
\<close>

definition ReplaceAll :: "string \<Rightarrow> char \<Rightarrow> string \<Rightarrow> string" where
  "ReplaceAll s old new = concat (map (\<lambda>c. if c = old then new else [c]) s)"

text \<open>
  \<^verbatim>\<open>time.Parse\<close> belongs to Go's standard library (package time, format.go). The model
  follows the library's steps for the two layouts that \<^verbatim>\<open>normalizeDate\<close> passes. Each of
  them is the day element \<^verbatim>\<open>2\<close>, a space and a month element: \<^verbatim>\<open>Jan\<close> reads a name of
  the table of short names, \<^verbatim>\<open>January\<close> one of the table of long names. The helpers
  keep the library's names.
\<close>

definition shortMonthNames :: "string list" where
  "shortMonthNames = [''Jan'', ''Feb'', ''Mar'', ''Apr'', ''May'', ''Jun'',
                      ''Jul'', ''Aug'', ''Sep'', ''Oct'', ''Nov'', ''Dec'']"

definition longMonthNames :: "string list" where
  "longMonthNames = [''January'', ''February'', ''March'', ''April'', ''May'', ''June'',
                     ''July'', ''August'', ''September'', ''October'', ''November'', ''December'']"

definition isDigit :: "string \<Rightarrow> nat \<Rightarrow> bool" where
  "isDigit s i = (i < length s \<and> CHR ''0'' \<le> s ! i \<and> s ! i \<le> CHR ''9'')"

definition digit_value :: "char \<Rightarrow> int" where
  "digit_value c = int (of_char c) - 48"

text \<open>\<^verbatim>\<open>getnum\<close>: one or two digits; with \<open>fixed\<close>, two digits exactly.\<close>

definition getnum :: "string \<Rightarrow> bool \<Rightarrow> (int \<times> string) option" where
  "getnum s fixed =
     (if \<not> isDigit s 0 then None
      else if \<not> isDigit s 1 then
        (if fixed then None else Some (digit_value (s ! 0), drop 1 s))
      else Some (digit_value (s ! 0) * 10 + digit_value (s ! 1), drop 2 s))"

definition cutspace :: "string \<Rightarrow> string" where
  "cutspace s = dropWhile (\<lambda>c. c = CHR '' '') s"

text \<open>
  \<^verbatim>\<open>skip\<close> removes a literal prefix of the layout from the value; a space of the layout
  stands for any number of spaces of the value, also for none at its end.
\<close>

function skip :: "string \<Rightarrow> string \<Rightarrow> string option" where
  "skip val [] = Some val"
| "skip val (p # ps) =
     (if p = CHR '' '' then
        (if val \<noteq> [] \<and> hd val \<noteq> CHR '' '' then None
         else skip (cutspace val) (cutspace ps))
      else (case val of
              [] \<Rightarrow> None
            | v # vs \<Rightarrow> if v \<noteq> p then None else skip vs ps))"
  by pat_completeness auto
termination
  by (relation "measure (\<lambda>(val, prefix). length prefix)")
     (auto simp: cutspace_def intro: le_imp_less_Suc length_dropWhile_le)

text \<open>
  \<^verbatim>\<open>match\<close> compares two strings of the same length without regard to the case of
  letters: where the bytes differ, both get the bit \<^verbatim>\<open>'a' - 'A'\<close> and must then be the
  same lower-case letter.
\<close>

definition lower_bit :: "char \<Rightarrow> char" where
  "lower_bit c = char_of ((of_char c :: nat) OR 32)"

fun match :: "string \<Rightarrow> string \<Rightarrow> bool" where
  "match (c1 # s1) (c2 # s2) =
     (if c1 \<noteq> c2 \<and> (lower_bit c1 \<noteq> lower_bit c2 \<or> lower_bit c1 < CHR ''a'' \<or> CHR ''z'' < lower_bit c1)
      then False else match s1 s2)"
| "match s1 s2 = True"

text \<open>\<^verbatim>\<open>lookup\<close>: the index of the first name of the table that starts the value.\<close>

fun lookup_from :: "nat \<Rightarrow> string list \<Rightarrow> string \<Rightarrow> (nat \<times> string) option" where
  "lookup_from i [] val = None"
| "lookup_from i (v # tab) val =
     (if length v \<le> length val \<and> match (take (length v) val) v
      then Some (i, drop (length v) val)
      else lookup_from (Suc i) tab val)"

definition lookup :: "string list \<Rightarrow> string \<Rightarrow> (nat \<times> string) option" where
  "lookup tab val = lookup_from 0 tab val"

definition isLeap :: "int \<Rightarrow> bool" where
  "isLeap year = (year mod 4 = 0 \<and> (year mod 100 \<noteq> 0 \<or> year mod 400 = 0))"

definition daysIn :: "int \<Rightarrow> int \<Rightarrow> int" where
  "daysIn m year =
     (if m = 2 then (if isLeap year then 29 else 28)
      else if m = 4 \<or> m = 6 \<or> m = 9 \<or> m = 11 then 30 else 31)"

text \<open>
  The part of a \<^verbatim>\<open>time.Time\<close> that \<^verbatim>\<open>normalizeDate\<close> reads: the results of its methods
  \<^verbatim>\<open>Month\<close> and \<^verbatim>\<open>Day\<close> (the latter under another name than the field \<open>Day\<close> of a
  holiday).
\<close>

record Time =
  Month :: int
  Day_of_month :: int

definition month_table :: "string \<Rightarrow> string list option" where
  "month_table layout =
     (if layout = ''2 Jan'' then Some shortMonthNames
      else if layout = ''2 January'' then Some longMonthNames
      else None)"

text \<open>
  \<^verbatim>\<open>time.Parse\<close>: the day (one or two digits), the space, the month name, and nothing
  after it; then the day must exist in that month. The layouts have no year element,
  so the year of the parsed time is 0, which is a leap year. \<open>None\<close> is the library's
  error.
\<close>

definition time_Parse :: "string \<Rightarrow> string \<Rightarrow> Time option" where
  "time_Parse layout val =
     (case month_table layout of
        None \<Rightarrow> None
      | Some tab \<Rightarrow>
         (case getnum val False of
            None \<Rightarrow> None
          | Some (day, val1) \<Rightarrow>
             (case skip val1 '' '' of
                None \<Rightarrow> None
              | Some val2 \<Rightarrow>
                 (case lookup tab val2 of
                    None \<Rightarrow> None
                  | Some (i, val3) \<Rightarrow>
                     (if val3 \<noteq> [] then None
                      else if day < 1 \<or> daysIn (int i + 1) 0 < day then None
                      else Some \<lparr>Month = int i + 1, Day_of_month = day\<rparr>)))))"

text \<open>
  \<^verbatim>\<open>normalizeDate\<close>: the loop over the layouts returns at the first one that parses;
  after the loop comes the fallback. The warning that the fallback logs is not part of
  the result.
\<close>

fun normalizeDate_loop :: "string list \<Rightarrow> string \<Rightarrow> int \<Rightarrow> string" where
  "normalizeDate_loop [] dateStr year =
     Sprintf_d year @ ''-'' @ ReplaceAll dateStr CHR '' '' ''-''"
| "normalizeDate_loop (layout # layouts) dateStr year =
     (case time_Parse layout dateStr of
        Some t \<Rightarrow> Sprintf_d year @ ''-'' @ Sprintf_02d (Month t) @ ''-'' @ Sprintf_02d (Day_of_month t)
      | None \<Rightarrow> normalizeDate_loop layouts dateStr year)"

definition normalizeDate :: "string \<Rightarrow> int \<Rightarrow> string" where
  "normalizeDate dateStr year = normalizeDate_loop [''2 Jan'', ''2 January''] dateStr year"

section \<open>State-Name Canonicalizer\<close>

text \<open>
  \<^verbatim>\<open>strings.ToLower\<close> on bytes: the letters A to Z become a to z and every other byte
  stays. This is what Go does to a string of ASCII bytes; the letters of other
  alphabets, which Go maps by its Unicode tables, are not modelled.
\<close>

definition lower_char :: "char \<Rightarrow> char" where
  "lower_char c = (if CHR ''A'' \<le> c \<and> c \<le> CHR ''Z'' then char_of ((of_char c :: nat) + 32) else c)"

definition ToLower :: "string \<Rightarrow> string" where
  "ToLower s = map lower_char s"

definition normalizeState :: "string \<Rightarrow> string" where
  "normalizeState st0 =
     (let st = ReplaceAll (ReplaceAll (ToLower st0) CHR '' '' ''-'') CHR ''&'' ''and'' in
      if st = ''malacca'' then ''melaka''
      else if st = ''kualalumpur'' then ''kuala-lumpur''
      else if st = ''putrajayaand-selangor'' \<or> st = ''putrajaya-selangor'' then ''putrajaya''
      else st)"

section \<open>Page Extractor\<close>

text \<open>
  The browser is outside the program. \<open>run url year\<close> stands for the call of
  \<^verbatim>\<open>chromedp.Run\<close> that opens \<open>url\<close>, waits for the table and evaluates the script
  written for \<open>year\<close>: it gives an error or the rows, each row the texts of its cells.
\<close>

type_synonym browser = "string \<Rightarrow> int \<Rightarrow> string + string list list"

definition buildURL :: "string \<Rightarrow> int \<Rightarrow> string" where
  "buildURL state year =
     ''https://publicholidays.com.my/'' @ state @ ''/'' @ Sprintf_d year @ ''-dates/''"

text \<open>The loop over the rows; \<open>holidays\<close> is the slice that grows at its end.\<close>

fun rows_loop :: "string \<Rightarrow> int \<Rightarrow> string list list \<Rightarrow> Holiday list \<Rightarrow> Holiday list" where
  "rows_loop state year [] holidays = holidays"
| "rows_loop state year (r # rows) holidays =
     (if length r < 3 then rows_loop state year rows holidays
      else rows_loop state year rows
             (holidays @ [\<lparr>Date = normalizeDate (r ! 0) year, Day = r ! 1, Name = r ! 2,
                           States = [normalizeState state]\<rparr>]))"

definition FetchState :: "browser \<Rightarrow> string \<Rightarrow> int \<Rightarrow> string + Holiday list" where
  "FetchState run state year =
     (case run (buildURL state year) year of
        Inl err \<Rightarrow> Inl (''error loading '' @ state @ '': '' @ err)
      | Inr rows \<Rightarrow>
          if length rows = 0 then Inr []
          else Inr (rows_loop state year rows []))"

section \<open>Pipeline Driver\<close>

definition states :: "string list" where
  "states = [''national'',
             ''johor'', ''kedah'', ''kelantan'', ''kuala-lumpur'',
             ''labuan'', ''melaka'', ''negeri-sembilan'', ''pahang'',
             ''penang'', ''perak'', ''perlis'', ''putrajaya'',
             ''sabah'', ''sarawak'', ''selangor'', ''terengganu'']"

text \<open>
  The loop of \<^verbatim>\<open>main\<close> over the states. Its state is the slice \<open>all\<close> and, for the
  claims about what is fetched, the list \<open>fetched\<close> of the states that were passed to
  \<^verbatim>\<open>FetchState\<close> so far, in the order of the calls.
\<close>

fun main_loop :: "browser \<Rightarrow> int \<Rightarrow> string list \<Rightarrow> string list \<times> Holiday list
                  \<Rightarrow> string list \<times> Holiday list" where
  "main_loop run year [] (fetched, all) = (fetched, all)"
| "main_loop run year (st # sts) (fetched, all) =
     (case FetchState run st year of
        Inl err \<Rightarrow> main_loop run year sts (fetched @ [st], all)
      | Inr holidays \<Rightarrow> main_loop run year sts (fetched @ [st], all @ holidays))"

text \<open>
  \<^verbatim>\<open>main\<close> up to the consolidated list (writing the file comes after it): the states
  fetched and the final list.
\<close>

definition main :: "browser \<Rightarrow> int \<Rightarrow> string list \<Rightarrow> string list \<times> Holiday list" where
  "main run year ks =
     (let (fetched, all) = main_loop run year states ([], [])
      in (fetched, Consolidate ks all))"

section \<open>Notions of the statements\<close>





text \<open>
  The merge key is the date, a bar and the name in one string. A list of records is
  faithful to its keys when records with the same key have the same date and the same
  name, so that the key stands for the pair of date and name. \<open>states_of_key\<close> collects
  the states of all records of a list that have a given key.
\<close>

definition key_faithful :: "Holiday list \<Rightarrow> bool" where
  "key_faithful hs \<longleftrightarrow>
     (\<forall>x \<in> set hs. \<forall>y \<in> set hs. merge_key x = merge_key y \<longrightarrow> Date x = Date y \<and> Name x = Name y)"

definition states_of_key :: "Holiday list \<Rightarrow> string \<Rightarrow> string set" where
  "states_of_key hs k = (\<Union>y \<in> {y \<in> set hs. merge_key y = k}. set (States y))"

section \<open>Example records\<close>

text \<open>
  Two records of the same holiday on the same date whose weekday labels differ, as two
  state pages may give them, and a record of another holiday.
\<close>

definition ny_kl :: Holiday where
  "ny_kl = \<lparr>Date = ''2025-01-01'', Day = ''Wednesday'', Name = ''New Year's Day'',
            States = [''kuala-lumpur'']\<rparr>"

definition ny_kd :: Holiday where
  "ny_kd = \<lparr>Date = ''2025-01-01'', Day = ''Thursday'', Name = ''New Year's Day'',
            States = [''kedah'']\<rparr>"

definition labour_kl :: Holiday where
  "labour_kl = \<lparr>Date = ''2025-05-01'', Day = ''Thursday'', Name = ''Labour Day'',
                States = [''kuala-lumpur'']\<rparr>"

text \<open>
  The row of the New Year scenario and the records that the Page Extractor builds from
  it for Kuala Lumpur and for Putrajaya in 2025.
\<close>

definition new_year_row :: "string list" where
  "new_year_row = [''1 Jan'', ''Wednesday'', ''New Year's Day'']"

definition new_year_records :: "Holiday list" where
  "new_year_records =
     rows_loop ''kuala-lumpur'' 2025 [new_year_row] [] @ rows_loop ''putrajaya'' 2025 [new_year_row] []"

text \<open>
  Two records whose date cells did not parse, so that their dates are fallback markers
  with the text of the cell: the row \<^verbatim>\<open>x|y, Monday, z\<close> of Johor and the row
  \<^verbatim>\<open>x, Monday, y|z\<close> of Kedah. Their dates and names differ and their merge keys are
  the same string.
\<close>

definition bar_a :: Holiday where
  "bar_a = \<lparr>Date = ''2025-x|y'', Day = ''Monday'', Name = ''z'', States = [''johor'']\<rparr>"

definition bar_b :: Holiday where
  "bar_b = \<lparr>Date = ''2025-x'', Day = ''Monday'', Name = ''y|z'', States = [''kedah'']\<rparr>"

section \<open>Properties of the Consolidator\<close>

subsection \<open>The helper \<^verbatim>\<open>unique\<close>, the merge loop and the sort\<close>

lemma set_unique_loop:
  "(\<And>s. seen s \<longleftrightarrow> s \<in> set out) \<Longrightarrow> set (unique_loop seen out xs) = set out \<union> set xs"
  by (induction xs arbitrary: seen out) auto

lemma distinct_unique_loop:
  "(\<And>s. seen s \<longleftrightarrow> s \<in> set out) \<Longrightarrow> distinct out \<Longrightarrow> distinct (unique_loop seen out xs)"
  by (induction xs arbitrary: seen out) auto

lemma set_unique: "set (unique xs) = set xs"
  by (simp add: unique_def set_unique_loop)

lemma distinct_unique: "distinct (unique xs)"
  by (simp add: unique_def distinct_unique_loop)

lemma merge_loop_snoc: "merge_loop (hs @ [h]) = merge_step (merge_loop hs) h"
  by (simp add: merge_loop_def)

lemma merge_loop_Nil: "merge_loop [] = Map.empty"
  by (simp add: merge_loop_def)

lemma merge_step_other: "k \<noteq> merge_key h \<Longrightarrow> merge_step m h k = m k"
  by (simp add: merge_step_def Let_def split: option.split)

lemma merge_step_new:
  "m (merge_key h) = None \<Longrightarrow> merge_step m h (merge_key h) = Some (h\<lparr>States := unique (States h)\<rparr>)"
  by (simp add: merge_step_def Let_def)

lemma merge_step_old:
  "m (merge_key h) = Some e \<Longrightarrow>
   merge_step m h (merge_key h) = Some (e\<lparr>States := unique (States e @ States h)\<rparr>)"
  by (simp add: merge_step_def Let_def)

lemma dom_merge_step: "dom (merge_step m h) = insert (merge_key h) (dom m)"
  by (auto simp: merge_step_def Let_def split: option.splits if_splits)

lemma dom_merge_loop: "dom (merge_loop hs) = merge_key ` set hs"
  by (induction hs rule: rev_induct) (auto simp: merge_loop_Nil merge_loop_snoc dom_merge_step)

lemma merge_loop_None: "merge_loop hs k = None \<longleftrightarrow> k \<notin> merge_key ` set hs"
  using dom_merge_loop [of hs] by (metis domIff)

lemma find_snoc:
  "List.find P (xs @ [x]) = (case List.find P xs of Some y \<Rightarrow> Some y | None \<Rightarrow> if P x then Some x else None)"
  by (induction xs) auto

lemma merge_loop_first:
  "merge_loop hs k = Some v \<Longrightarrow>
   \<exists>f. List.find (\<lambda>x. merge_key x = k) hs = Some f \<and> Date v = Date f \<and> Day v = Day f \<and> Name v = Name f"
proof (induction hs arbitrary: v rule: rev_induct)
  case Nil
  then show ?case by (simp add: merge_loop_Nil)
next
  case (snoc h hs)
  show ?case
  proof (cases "k = merge_key h")
    case False
    with snoc.prems have "merge_loop hs k = Some v"
      by (simp add: merge_loop_snoc merge_step_other)
    from snoc.IH [OF this] False show ?thesis
      by (auto simp: find_snoc)
  next
    case True
    show ?thesis
    proof (cases "merge_loop hs k")
      case None
      then have "k \<notin> merge_key ` set hs"
        by (simp add: merge_loop_None)
      then have nf: "List.find (\<lambda>x. merge_key x = k) hs = None"
        by (auto simp: find_None_iff)
      from None True snoc.prems have "v = h\<lparr>States := unique (States h)\<rparr>"
        by (simp add: merge_loop_snoc merge_step_new)
      with nf True show ?thesis by (simp add: find_snoc)
    next
      case (Some e)
      from snoc.IH [OF Some] obtain f where
        f: "List.find (\<lambda>x. merge_key x = k) hs = Some f" "Date e = Date f" "Day e = Day f" "Name e = Name f"
        by blast
      from Some True snoc.prems have "v = e\<lparr>States := unique (States e @ States h)\<rparr>"
        by (simp add: merge_loop_snoc merge_step_old)
      with f show ?thesis by (simp add: find_snoc)
    qed
  qed
qed

lemma merge_loop_states:
  "merge_loop hs k = Some v \<Longrightarrow>
   set (States v) = (\<Union>x \<in> {x \<in> set hs. merge_key x = k}. set (States x)) \<and> distinct (States v)"
proof (induction hs arbitrary: v rule: rev_induct)
  case Nil
  then show ?case by (simp add: merge_loop_Nil)
next
  case (snoc h hs)
  show ?case
  proof (cases "k = merge_key h")
    case False
    with snoc.prems have "merge_loop hs k = Some v"
      by (simp add: merge_loop_snoc merge_step_other)
    from snoc.IH [OF this] False show ?thesis
      by auto
  next
    case True
    show ?thesis
    proof (cases "merge_loop hs k")
      case None
      then have "k \<notin> merge_key ` set hs"
        by (simp add: merge_loop_None)
      then have nf: "{x \<in> set hs. merge_key x = k} = {}"
        by auto
      from None True snoc.prems have "v = h\<lparr>States := unique (States h)\<rparr>"
        by (simp add: merge_loop_snoc merge_step_new)
      with nf True show ?thesis by (auto simp: set_unique distinct_unique)
    next
      case (Some e)
      from snoc.IH [OF Some] have
        e: "set (States e) = (\<Union>x \<in> {x \<in> set hs. merge_key x = k}. set (States x))"
        by blast
      from Some True snoc.prems have "v = e\<lparr>States := unique (States e @ States h)\<rparr>"
        by (simp add: merge_loop_snoc merge_step_old)
      with e True show ?thesis by (auto simp: set_unique distinct_unique)
    qed
  qed
qed

lemma set_insert_less: "set (insert_less lt x xs) = insert x (set xs)"
  by (induction xs) auto

lemma set_sort_Slice_aux: "set (foldl (\<lambda>front x. insert_less lt x front) acc xs) = set acc \<union> set xs"
  by (induction xs arbitrary: acc) (auto simp: set_insert_less)

lemma set_sort_Slice: "set (sort_Slice lt xs) = set xs"
  by (simp add: sort_Slice_def set_sort_Slice_aux)

lemma sorted_insert_less:
  "sorted (map Date xs) \<Longrightarrow> sorted (map Date (insert_less (\<lambda>a b. Date a < Date b) x xs))"
  by (induction xs) (auto simp: set_insert_less)

lemma sorted_sort_Slice_aux:
  "sorted (map Date acc) \<Longrightarrow>
   sorted (map Date (foldl (\<lambda>front x. insert_less (\<lambda>a b. Date a < Date b) x front) acc xs))"
  by (induction xs arbitrary: acc) (auto simp: sorted_insert_less)


lemma set_range_values: "set (range_values ks m) = {v. \<exists>k \<in> set ks. m k = Some v}"
  by (induction ks) (auto simp: range_values_def List.map_filter_simps split: option.splits)

lemma length_insert_less: "length (insert_less lt x xs) = Suc (length xs)"
  by (induction xs) auto

lemma merge_loop_key: "merge_loop hs k = Some v \<Longrightarrow> merge_key v = k"
proof -
  assume a: "merge_loop hs k = Some v"
  from merge_loop_first [OF a] obtain f where
    f: "List.find (\<lambda>x. merge_key x = k) hs = Some f" "Date v = Date f" "Name v = Name f"
    by blast
  from f(1) have "merge_key f = k" by (auto simp: find_Some_iff)
  with f show ?thesis by (simp add: merge_key_def)
qed

lemma find_stronger:
  "List.find P xs = Some f \<Longrightarrow> Q f \<Longrightarrow> (\<And>x. Q x \<Longrightarrow> P x) \<Longrightarrow> List.find Q xs = Some f"
  by (induction xs) (auto split: if_splits)

lemma Consolidate_elem:
  "h \<in> set (Consolidate ks hs) \<longleftrightarrow> (\<exists>k \<in> set ks. merge_loop hs k = Some h)"
  by (simp add: Consolidate_def set_sort_Slice set_range_values)

lemma takeWhile_until:
  "c \<notin> set d \<Longrightarrow> takeWhile (\<lambda>x. x \<noteq> c) (d @ c # n) = d"
  by (induction d) auto

lemma split_at_bar:
  assumes "CHR ''|'' \<notin> set d" "CHR ''|'' \<notin> set d'" "d @ ''|'' @ n = d' @ ''|'' @ n'"
  shows "d = d' \<and> n = n'"
proof -
  have "takeWhile (\<lambda>c. c \<noteq> CHR ''|'') (d @ ''|'' @ n) = d"
    using assms(1) by (simp add: takeWhile_until)
  moreover have "takeWhile (\<lambda>c. c \<noteq> CHR ''|'') (d' @ ''|'' @ n') = d'"
    using assms(2) by (simp add: takeWhile_until)
  ultimately have "d = d'" using assms(3) by simp
  with assms(3) show ?thesis by simp
qed

lemma key_faithful_no_bar:
  "\<forall>x \<in> set hs. CHR ''|'' \<notin> set (Date x) \<Longrightarrow> key_faithful hs"
  unfolding key_faithful_def merge_key_def by (blast dest: split_at_bar)

lemma distinct_map_insert_less:
  "distinct (map f (insert_less lt x xs)) \<longleftrightarrow> f x \<notin> f ` set xs \<and> distinct (map f xs)"
  by (induction xs) (auto simp: set_insert_less)

lemma distinct_map_sort_Slice_aux:
  "distinct (map f (foldl (\<lambda>front x. insert_less lt x front) acc xs)) = distinct (map f (acc @ xs))"
  by (induction xs arbitrary: acc) (auto simp: distinct_map_insert_less set_insert_less)

lemma distinct_map_sort_Slice: "distinct (map f (sort_Slice lt xs)) = distinct (map f xs)"
  by (simp add: sort_Slice_def distinct_map_sort_Slice_aux)

lemma map_key_range_values:
  "map merge_key (range_values ks (merge_loop hs)) = filter (\<lambda>k. merge_loop hs k \<noteq> None) ks"
  by (induction ks) (auto simp: range_values_def List.map_filter_simps merge_loop_key split: option.splits)

lemma distinct_keys_Consolidate:
  "distinct ks \<Longrightarrow> distinct (map merge_key (Consolidate ks hs))"
  by (simp add: Consolidate_def distinct_map_sort_Slice map_key_range_values)

lemma Consolidate_elem_iteration:
  "iteration_of ks (merge_loop hs) \<Longrightarrow> h \<in> set (Consolidate ks hs) \<longleftrightarrow> (\<exists>k. merge_loop hs k = Some h)"
  by (auto simp: Consolidate_elem iteration_of_def)

lemma filter_key_single:
  "distinct (map f xs) \<Longrightarrow> h \<in> set xs \<Longrightarrow> filter (\<lambda>y. f y = f h) xs = [h]"
proof (induction xs)
  case Nil
  then show ?case by simp
next
  case (Cons a xs)
  show ?case
  proof (cases "a = h")
    case True
    with Cons.prems have "f h \<notin> f ` set xs" by simp
    then have "\<forall>y \<in> set xs. f y \<noteq> f h" by (metis imageI)
    then have "filter (\<lambda>y. f y = f h) xs = []" by (simp add: filter_empty_conv)
    with True show ?thesis by simp
  next
    case False
    with Cons.prems have "h \<in> set xs" "f a \<noteq> f h" "distinct (map f xs)" by auto
    with Cons.IH show ?thesis by simp
  qed
qed

lemma merge_loop_of_key:
  "x \<in> set hs \<Longrightarrow> \<exists>h f. merge_loop hs (merge_key x) = Some h \<and> f \<in> set hs \<and> merge_key f = merge_key x
      \<and> Date h = Date f \<and> Name h = Name f \<and> merge_key h = merge_key x
      \<and> distinct (States h) \<and> set (States h) = states_of_key hs (merge_key x)"
proof -
  assume x: "x \<in> set hs"
  then have "merge_loop hs (merge_key x) \<noteq> None" by (simp add: merge_loop_None)
  then obtain h where h: "merge_loop hs (merge_key x) = Some h" by auto
  from merge_loop_first [OF h] obtain f where
    f: "List.find (\<lambda>y. merge_key y = merge_key x) hs = Some f" "Date h = Date f" "Name h = Name f"
    by blast
  from f(1) have "f \<in> set hs" "merge_key f = merge_key x"
    by (auto simp: find_Some_iff)
  with h f merge_loop_states [OF h] merge_loop_key [OF h] show ?thesis
    by (auto simp: states_of_key_def)
qed

lemma distinct_singleton: "distinct ks \<Longrightarrow> set ks = {k} \<Longrightarrow> ks = [k]"
  by (cases ks) (auto simp: subset_singleton_iff dest: subset_singletonD)

lemma iteration_of_single: "iteration_of ks (Map.empty(k \<mapsto> v)) \<longleftrightarrow> ks = [k]"
  by (auto simp: iteration_of_def dest: distinct_singleton)

text \<open>
  Every map has an order of iteration, so a statement about all orders of iteration is
  about something.
\<close>

lemma iteration_exists: "\<exists>ks. iteration_of ks (merge_loop hs)"
proof
  show "iteration_of (remdups (map merge_key hs)) (merge_loop hs)"
    by (simp add: iteration_of_def dom_merge_loop)
qed

subsection \<open>Facts about the example records\<close>

lemma example_iteration:
  "iteration_of [''2025-05-01|Labour Day'', ''2025-01-01|New Year's Day''] (merge_loop [ny_kl, ny_kd, labour_kl])"
  by (auto simp: iteration_of_def dom_merge_loop merge_key_def ny_kl_def ny_kd_def labour_kl_def)

lemma example_iteration':
  "iteration_of [''2025-01-01|New Year's Day'', ''2025-05-01|Labour Day''] (merge_loop [labour_kl, ny_kd, ny_kl])"
  by (auto simp: iteration_of_def dom_merge_loop merge_key_def ny_kl_def ny_kd_def labour_kl_def)

lemma example_faithful: "key_faithful [ny_kl, ny_kd, labour_kl]"
  by (rule key_faithful_no_bar) (simp add: ny_kl_def ny_kd_def labour_kl_def)

lemma bar_rows:
  "rows_loop ''johor'' 2025 [[''x|y'', ''Monday'', ''z'']] []
     @ rows_loop ''kedah'' 2025 [[''x'', ''Monday'', ''y|z'']] [] = [bar_a, bar_b]"
  unfolding bar_a_def bar_b_def by code_simp

lemma bar_merged_ab:
  "merge_loop [bar_a, bar_b] =
     Map.empty(''2025-x|y|z'' \<mapsto> \<lparr>Date = ''2025-x|y'', Day = ''Monday'', Name = ''z'', States = [''johor'', ''kedah'']\<rparr>)"
  by (simp add: bar_a_def bar_b_def merge_loop_def merge_step_def merge_key_def unique_def)

lemma bar_merged_ba:
  "merge_loop [bar_b, bar_a] =
     Map.empty(''2025-x|y|z'' \<mapsto> \<lparr>Date = ''2025-x'', Day = ''Monday'', Name = ''y|z'', States = [''kedah'', ''johor'']\<rparr>)"
  by (simp add: bar_a_def bar_b_def merge_loop_def merge_step_def merge_key_def unique_def)

lemma Consolidate_single:
  "merge_loop hs = Map.empty(k \<mapsto> v) \<Longrightarrow> Consolidate [k] hs = [v]"
  by (simp add: Consolidate_def range_values_def sort_Slice_def List.map_filter_simps)

lemma new_year_records_eq:
  "new_year_records =
     [\<lparr>Date = ''2025-01-01'', Day = ''Wednesday'', Name = ''New Year's Day'', States = [''kuala-lumpur'']\<rparr>,
      \<lparr>Date = ''2025-01-01'', Day = ''Wednesday'', Name = ''New Year's Day'', States = [''putrajaya'']\<rparr>]"
  by code_simp

lemma new_year_merged:
  "merge_loop new_year_records =
     Map.empty(''2025-01-01|New Year's Day'' \<mapsto>
        \<lparr>Date = ''2025-01-01'', Day = ''Wednesday'', Name = ''New Year's Day'',
         States = [''kuala-lumpur'', ''putrajaya'']\<rparr>)"
  by (simp add: new_year_records_eq merge_loop_def merge_step_def merge_key_def unique_def)

subsection \<open>Order of the result\<close>

text \<open>
  C4: for every input list, and whatever the order in which the runtime ranges over the
  map, the list that \<^verbatim>\<open>Consolidate\<close> returns is sorted in ascending lexicographic order
  of the date strings of its records.
\<close>

theorem Consolidate_sorted_by_date: "sorted (map Date (Consolidate ks holidays))"
  by (simp add: Consolidate_def sort_Slice_def sorted_sort_Slice_aux)

subsection \<open>The weekday label of a merged record\<close>

text \<open>
  C10: every record that \<^verbatim>\<open>Consolidate\<close> returns carries the weekday label of the first
  record of the input that has its merge key; that first record has the date and the
  name of the result, so it is also the first record of the input with this date and
  name. The labels of the later records with the key are dropped.
\<close>

theorem Consolidate_day_of_first:
  assumes "h \<in> set (Consolidate ks holidays)"
  shows "\<exists>f. List.find (\<lambda>x. merge_key x = merge_key h) holidays = Some f
             \<and> List.find (\<lambda>x. Date x = Date h \<and> Name x = Name h) holidays = Some f
             \<and> Day h = Day f"
proof -
  from assms obtain k where k: "merge_loop holidays k = Some h"
    by (auto simp: Consolidate_elem)
  then have kh: "merge_key h = k" by (rule merge_loop_key)
  from merge_loop_first [OF k] obtain f where
    f: "List.find (\<lambda>x. merge_key x = k) holidays = Some f"
       "Date h = Date f" "Day h = Day f" "Name h = Name f"
    by blast
  have "List.find (\<lambda>x. Date x = Date h \<and> Name x = Name h) holidays = Some f"
    using f(1)
  proof (rule find_stronger)
    show "Date f = Date h \<and> Name f = Name h" using f by simp
  next
    fix x :: Holiday assume "Date x = Date h \<and> Name x = Name h"
    then show "merge_key x = k" using kh by (simp add: merge_key_def)
  qed
  with f kh show ?thesis by auto
qed


theorem Consolidate_day_of_first_witness:
  "ny_kl\<lparr>States := [''kuala-lumpur'', ''kedah'']\<rparr> \<in> set (Consolidate [''2025-01-01|New Year's Day''] [ny_kl, ny_kd])
   \<and> (\<exists>f. List.find (\<lambda>x. merge_key x = merge_key (ny_kl\<lparr>States := [''kuala-lumpur'', ''kedah'']\<rparr>)) [ny_kl, ny_kd] = Some f
         \<and> List.find (\<lambda>x. Date x = Date (ny_kl\<lparr>States := [''kuala-lumpur'', ''kedah'']\<rparr>) \<and> Name x = Name (ny_kl\<lparr>States := [''kuala-lumpur'', ''kedah'']\<rparr>)) [ny_kl, ny_kd] = Some f
         \<and> Day (ny_kl\<lparr>States := [''kuala-lumpur'', ''kedah'']\<rparr>) = Day f)"
proof -
  have mem: "ny_kl\<lparr>States := [''kuala-lumpur'', ''kedah'']\<rparr> \<in> set (Consolidate [''2025-01-01|New Year's Day''] [ny_kl, ny_kd])"
    by (simp add: Consolidate_def sort_Slice_def range_values_def merge_loop_def merge_step_def
                  merge_key_def unique_def ny_kl_def ny_kd_def List.map_filter_simps)
  from mem Consolidate_day_of_first [OF mem] show ?thesis by blast
qed

text \<open>
  The label that survives depends on the order of the input: the same two records in
  the other order give the other label.
\<close>

lemma Consolidate_day_depends_on_order:
  "map Day (Consolidate [''2025-01-01|New Year's Day''] [ny_kl, ny_kd]) = [''Wednesday'']
   \<and> map Day (Consolidate [''2025-01-01|New Year's Day''] [ny_kd, ny_kl]) = [''Thursday'']"
  by (simp add: Consolidate_def sort_Slice_def range_values_def merge_loop_def merge_step_def
                merge_key_def unique_def ny_kl_def ny_kd_def List.map_filter_simps)

subsection \<open>Every pair of date and name once, with the union of its states\<close>

text \<open>
  C2, as the code has it: when the input is faithful to its keys, which it is whenever
  no date holds the bar \<^verbatim>\<open>|\<close>, and in particular when every date is canonical, then for
  every record \<open>x\<close> of the input exactly one record of the result has the date and the name
  of \<open>x\<close>, and its states are, without repetition, the states of all records of the input
  with that date and name.
\<close>

theorem Consolidate_pairs_once:
  assumes it: "iteration_of ks (merge_loop holidays)"
      and kf: "key_faithful holidays"
      and x: "x \<in> set holidays"
  shows "\<exists>h. filter (\<lambda>h. Date h = Date x \<and> Name h = Name x) (Consolidate ks holidays) = [h]
             \<and> distinct (States h)
             \<and> set (States h) =
                 (\<Union>y \<in> {y \<in> set holidays. Date y = Date x \<and> Name y = Name x}. set (States y))"
proof -
  let ?out = "Consolidate ks holidays"
  from merge_loop_of_key [OF x] obtain h f where
    h: "merge_loop holidays (merge_key x) = Some h" and
    f: "f \<in> set holidays" "merge_key f = merge_key x" "Date h = Date f" "Name h = Name f" and
    hk: "merge_key h = merge_key x" and
    st: "distinct (States h)" "set (States h) = states_of_key holidays (merge_key x)"
    by blast
  from it h have mem: "h \<in> set ?out"
    by (auto simp: Consolidate_elem_iteration)
  from it have "distinct (map merge_key ?out)"
    by (simp add: distinct_keys_Consolidate iteration_of_def)
  from filter_key_single [OF this mem] hk
  have single: "filter (\<lambda>y. merge_key y = merge_key x) ?out = [h]" by simp
  have same: "(Date y = Date x \<and> Name y = Name x) \<longleftrightarrow> merge_key y = merge_key x"
    if y: "y \<in> set holidays" for y
    using kf y x unfolding key_faithful_def by (auto simp: merge_key_def)
  have "(Date g = Date x \<and> Name g = Name x) \<longleftrightarrow> merge_key g = merge_key x"
    if g: "g \<in> set ?out" for g
  proof -
    from g it obtain k where k: "merge_loop holidays k = Some g"
      by (auto simp: Consolidate_elem_iteration)
    from merge_loop_first [OF k] obtain f' where
      f': "List.find (\<lambda>y. merge_key y = k) holidays = Some f'" "Date g = Date f'" "Name g = Name f'"
      by blast
    from f'(1) have "f' \<in> set holidays" by (auto simp: find_Some_iff)
    from same [OF this] f'(2,3) show ?thesis by (simp add: merge_key_def)
  qed
  then have "filter (\<lambda>h. Date h = Date x \<and> Name h = Name x) ?out
             = filter (\<lambda>y. merge_key y = merge_key x) ?out"
    by (intro filter_cong) auto
  with single have one: "filter (\<lambda>h. Date h = Date x \<and> Name h = Name x) ?out = [h]" by simp
  have "states_of_key holidays (merge_key x) =
          (\<Union>y \<in> {y \<in> set holidays. Date y = Date x \<and> Name y = Name x}. set (States y))"
    unfolding states_of_key_def using same by auto
  with one st show ?thesis by auto
qed

theorem Consolidate_pairs_once_witness:
  "iteration_of [''2025-05-01|Labour Day'', ''2025-01-01|New Year's Day''] (merge_loop [ny_kl, ny_kd, labour_kl])
   \<and> key_faithful [ny_kl, ny_kd, labour_kl]
   \<and> ny_kd \<in> set [ny_kl, ny_kd, labour_kl]
   \<and> (\<exists>h. filter (\<lambda>h. Date h = Date ny_kd \<and> Name h = Name ny_kd)
               (Consolidate [''2025-05-01|Labour Day'', ''2025-01-01|New Year's Day''] [ny_kl, ny_kd, labour_kl]) = [h]
             \<and> distinct (States h)
             \<and> set (States h) =
                 (\<Union>y \<in> {y \<in> set [ny_kl, ny_kd, labour_kl]. Date y = Date ny_kd \<and> Name y = Name ny_kd}. set (States y)))"
proof -
  have x: "ny_kd \<in> set [ny_kl, ny_kd, labour_kl]" by simp
  from Consolidate_pairs_once [OF example_iteration example_faithful x]
       example_iteration example_faithful x
  show ?thesis by blast
qed

text \<open>
  C2, as it is stated, fails on records whose keys collide: the rows \<^verbatim>\<open>x|y, Monday, z\<close>
  of Johor and \<^verbatim>\<open>x, Monday, y|z\<close> of Kedah give the records \<open>bar_a\<close> and \<open>bar_b\<close>; the
  result has one record, with the date and name of \<open>bar_a\<close> and the states of both, and
  none with the date \<^verbatim>\<open>2025-x\<close> and the name \<^verbatim>\<open>y|z\<close> of \<open>bar_b\<close>.
\<close>

theorem Consolidate_pair_lost_counterexample:
  "rows_loop ''johor'' 2025 [[''x|y'', ''Monday'', ''z'']] []
     @ rows_loop ''kedah'' 2025 [[''x'', ''Monday'', ''y|z'']] [] = [bar_a, bar_b]
   \<and> Date bar_b = ''2025-x'' \<and> Name bar_b = ''y|z''
   \<and> iteration_of [''2025-x|y|z''] (merge_loop [bar_a, bar_b])
   \<and> Consolidate [''2025-x|y|z''] [bar_a, bar_b] =
        [\<lparr>Date = ''2025-x|y'', Day = ''Monday'', Name = ''z'', States = [''johor'', ''kedah'']\<rparr>]"
proof -
  have "iteration_of [''2025-x|y|z''] (merge_loop [bar_a, bar_b])"
    by (simp only: bar_merged_ab iteration_of_single)
  moreover have "Date bar_b = ''2025-x'' \<and> Name bar_b = ''y|z''"
    by (simp add: bar_b_def)
  ultimately show ?thesis
    using bar_rows Consolidate_single [OF bar_merged_ab] by simp
qed

subsection \<open>The order of the input\<close>

lemma key_states_char:
  assumes "iteration_of ks (merge_loop hs)"
  shows "(\<lambda>h. (merge_key h, set (States h))) ` set (Consolidate ks hs)
         = (\<lambda>x. (merge_key x, states_of_key hs (merge_key x))) ` set hs"
proof (intro set_eqI iffI)
  fix p assume "p \<in> (\<lambda>h. (merge_key h, set (States h))) ` set (Consolidate ks hs)"
  then obtain h k where h: "merge_loop hs k = Some h" and p: "p = (merge_key h, set (States h))"
    using assms by (auto simp: Consolidate_elem_iteration)
  from h have "k \<in> merge_key ` set hs" using merge_loop_None [of hs k] by auto
  then obtain x where x: "x \<in> set hs" "merge_key x = k" by auto
  with merge_loop_of_key [OF x(1)] h p
  show "p \<in> (\<lambda>x. (merge_key x, states_of_key hs (merge_key x))) ` set hs"
    by auto
next
  fix p assume "p \<in> (\<lambda>x. (merge_key x, states_of_key hs (merge_key x))) ` set hs"
  then obtain x where x: "x \<in> set hs" and p: "p = (merge_key x, states_of_key hs (merge_key x))"
    by auto
  from merge_loop_of_key [OF x] obtain h where
    h: "merge_loop hs (merge_key x) = Some h" "merge_key h = merge_key x"
       "set (States h) = states_of_key hs (merge_key x)"
    by blast
  from assms h(1) have "h \<in> set (Consolidate ks hs)"
    by (auto simp: Consolidate_elem_iteration)
  moreover from p h have "p = (merge_key h, set (States h))" by simp
  ultimately show "p \<in> (\<lambda>h. (merge_key h, set (States h))) ` set (Consolidate ks hs)"
    by blast
qed

lemma pair_states_char:
  assumes "iteration_of ks (merge_loop hs)" and kf: "key_faithful hs"
  shows "(\<lambda>h. (Date h, Name h, set (States h))) ` set (Consolidate ks hs)
         = (\<lambda>x. (Date x, Name x, states_of_key hs (merge_key x))) ` set hs"
proof (intro set_eqI iffI)
  fix p assume "p \<in> (\<lambda>h. (Date h, Name h, set (States h))) ` set (Consolidate ks hs)"
  then obtain h k where h: "merge_loop hs k = Some h" and p: "p = (Date h, Name h, set (States h))"
    using assms by (auto simp: Consolidate_elem_iteration)
  from merge_loop_first [OF h] obtain f where
    f: "List.find (\<lambda>y. merge_key y = k) hs = Some f" "Date h = Date f" "Name h = Name f"
    by blast
  from f(1) have fin: "f \<in> set hs" "merge_key f = k" by (auto simp: find_Some_iff)
  from merge_loop_states [OF h] fin have "set (States h) = states_of_key hs (merge_key f)"
    by (simp add: states_of_key_def)
  with p f fin show "p \<in> (\<lambda>x. (Date x, Name x, states_of_key hs (merge_key x))) ` set hs"
    by auto
next
  fix p assume "p \<in> (\<lambda>x. (Date x, Name x, states_of_key hs (merge_key x))) ` set hs"
  then obtain x where x: "x \<in> set hs" and p: "p = (Date x, Name x, states_of_key hs (merge_key x))"
    by auto
  from merge_loop_of_key [OF x] obtain h f where
    h: "merge_loop hs (merge_key x) = Some h" "f \<in> set hs" "merge_key f = merge_key x"
       "Date h = Date f" "Name h = Name f" "set (States h) = states_of_key hs (merge_key x)"
    by blast
  from kf h(2,3) x have "Date f = Date x" "Name f = Name x"
    unfolding key_faithful_def by blast+
  with h p have "p = (Date h, Name h, set (States h))" by simp
  moreover from assms(1) h(1) have "h \<in> set (Consolidate ks hs)"
    by (auto simp: Consolidate_elem_iteration)
  ultimately show "p \<in> (\<lambda>h. (Date h, Name h, set (States h))) ` set (Consolidate ks hs)"
    by blast
qed

text \<open>
  C3, as the code has it: for a permutation of the input, and whatever the two orders of
  iteration, the two results have the same merge keys, each key once, with the same set
  of states; when the input is faithful to its keys they also have the same pairs of
  date and name with the same sets of states.
\<close>

theorem Consolidate_permutation:
  assumes perm: "mset holidays' = mset holidays"
      and it: "iteration_of ks (merge_loop holidays)"
      and it': "iteration_of ks' (merge_loop holidays')"
  shows "(\<lambda>h. (merge_key h, set (States h))) ` set (Consolidate ks holidays)
           = (\<lambda>h. (merge_key h, set (States h))) ` set (Consolidate ks' holidays')
         \<and> distinct (map merge_key (Consolidate ks holidays))
         \<and> distinct (map merge_key (Consolidate ks' holidays'))
         \<and> (key_faithful holidays \<longrightarrow>
              (\<lambda>h. (Date h, Name h, set (States h))) ` set (Consolidate ks holidays)
                = (\<lambda>h. (Date h, Name h, set (States h))) ` set (Consolidate ks' holidays'))"
proof -
  from perm have s: "set holidays' = set holidays" by (rule mset_eq_setD)
  then have sk: "states_of_key holidays' = states_of_key holidays"
    by (simp add: states_of_key_def fun_eq_iff)
  from s have kf: "key_faithful holidays' = key_faithful holidays"
    by (simp add: key_faithful_def)
  have 1: "(\<lambda>h. (merge_key h, set (States h))) ` set (Consolidate ks holidays)
           = (\<lambda>h. (merge_key h, set (States h))) ` set (Consolidate ks' holidays')"
    by (simp add: key_states_char [OF it] key_states_char [OF it'] s sk)
  have 2: "distinct (map merge_key (Consolidate ks holidays))"
          "distinct (map merge_key (Consolidate ks' holidays'))"
    using it it' by (simp_all add: distinct_keys_Consolidate iteration_of_def)
  have 3: "(\<lambda>h. (Date h, Name h, set (States h))) ` set (Consolidate ks holidays)
                = (\<lambda>h. (Date h, Name h, set (States h))) ` set (Consolidate ks' holidays')"
    if "key_faithful holidays"
    using that kf by (simp add: pair_states_char [OF it] pair_states_char [OF it'] s sk)
  from 1 2 3 show ?thesis by blast
qed

theorem Consolidate_permutation_witness:
  "mset [labour_kl, ny_kd, ny_kl] = mset [ny_kl, ny_kd, labour_kl]
   \<and> iteration_of [''2025-05-01|Labour Day'', ''2025-01-01|New Year's Day''] (merge_loop [ny_kl, ny_kd, labour_kl])
   \<and> iteration_of [''2025-01-01|New Year's Day'', ''2025-05-01|Labour Day''] (merge_loop [labour_kl, ny_kd, ny_kl])
   \<and> key_faithful [ny_kl, ny_kd, labour_kl]
   \<and> (\<lambda>h. (merge_key h, set (States h))) `
        set (Consolidate [''2025-05-01|Labour Day'', ''2025-01-01|New Year's Day''] [ny_kl, ny_kd, labour_kl])
       = (\<lambda>h. (merge_key h, set (States h))) `
        set (Consolidate [''2025-01-01|New Year's Day'', ''2025-05-01|Labour Day''] [labour_kl, ny_kd, ny_kl])
   \<and> (\<lambda>h. (Date h, Name h, set (States h))) `
        set (Consolidate [''2025-05-01|Labour Day'', ''2025-01-01|New Year's Day''] [ny_kl, ny_kd, labour_kl])
       = (\<lambda>h. (Date h, Name h, set (States h))) `
        set (Consolidate [''2025-01-01|New Year's Day'', ''2025-05-01|Labour Day''] [labour_kl, ny_kd, ny_kl])"
proof -
  have p: "mset [labour_kl, ny_kd, ny_kl] = mset [ny_kl, ny_kd, labour_kl]" by simp
  from Consolidate_permutation [OF p example_iteration example_iteration']
       p example_iteration example_iteration' example_faithful
  show ?thesis by blast
qed

text \<open>
  C3, as it is stated for pairs of date and name, fails on records whose keys collide:
  the list of \<open>bar_a\<close> and \<open>bar_b\<close> consolidates to a record with the date and name of
  \<open>bar_a\<close>, the permuted list to a record with the date and name of \<open>bar_b\<close>.
\<close>

theorem Consolidate_order_counterexample:
  "mset [bar_b, bar_a] = mset [bar_a, bar_b]
   \<and> iteration_of [''2025-x|y|z''] (merge_loop [bar_a, bar_b])
   \<and> iteration_of [''2025-x|y|z''] (merge_loop [bar_b, bar_a])
   \<and> Consolidate [''2025-x|y|z''] [bar_a, bar_b] =
        [\<lparr>Date = ''2025-x|y'', Day = ''Monday'', Name = ''z'', States = [''johor'', ''kedah'']\<rparr>]
   \<and> Consolidate [''2025-x|y|z''] [bar_b, bar_a] =
        [\<lparr>Date = ''2025-x'', Day = ''Monday'', Name = ''y|z'', States = [''kedah'', ''johor'']\<rparr>]"
proof -
  have "iteration_of [''2025-x|y|z''] (merge_loop [bar_a, bar_b])"
    by (simp only: bar_merged_ab iteration_of_single)
  moreover have "iteration_of [''2025-x|y|z''] (merge_loop [bar_b, bar_a])"
    by (simp only: bar_merged_ba iteration_of_single)
  moreover have "mset [bar_b, bar_a] = mset [bar_a, bar_b]" by simp
  ultimately show ?thesis
    using Consolidate_single [OF bar_merged_ab] Consolidate_single [OF bar_merged_ba] by simp
qed

subsection \<open>The New Year scenario\<close>

text \<open>
  C8: the record of the row \<^verbatim>\<open>1 Jan, Wednesday, New Year's Day\<close> for Kuala Lumpur and the
  record of the same row for Putrajaya, both for 2025, consolidate to exactly one
  record, with the date \<^verbatim>\<open>2025-01-01\<close>, the name of the row and the two states.
\<close>

theorem new_year_scenario:
  assumes "iteration_of ks (merge_loop new_year_records)"
  shows "Consolidate ks new_year_records =
           [\<lparr>Date = ''2025-01-01'', Day = ''Wednesday'', Name = ''New Year's Day'',
             States = [''kuala-lumpur'', ''putrajaya'']\<rparr>]
         \<and> (\<exists>h. Consolidate ks new_year_records = [h] \<and> Date h = ''2025-01-01''
                 \<and> Name h = ''New Year's Day'' \<and> set (States h) = {''kuala-lumpur'', ''putrajaya''})"
proof -
  from assms have ks: "ks = [''2025-01-01|New Year's Day'']"
    by (simp only: new_year_merged iteration_of_single)
  have "Consolidate ks new_year_records =
           [\<lparr>Date = ''2025-01-01'', Day = ''Wednesday'', Name = ''New Year's Day'',
             States = [''kuala-lumpur'', ''putrajaya'']\<rparr>]"
    unfolding ks Consolidate_def new_year_merged
    by (simp add: range_values_def sort_Slice_def List.map_filter_simps)
  then show ?thesis by auto
qed

theorem new_year_scenario_witness:
  "iteration_of [''2025-01-01|New Year's Day''] (merge_loop new_year_records)
   \<and> Consolidate [''2025-01-01|New Year's Day''] new_year_records =
           [\<lparr>Date = ''2025-01-01'', Day = ''Wednesday'', Name = ''New Year's Day'',
             States = [''kuala-lumpur'', ''putrajaya'']\<rparr>]"
proof -
  have a: "iteration_of [''2025-01-01|New Year's Day''] (merge_loop new_year_records)"
    by (simp only: new_year_merged iteration_of_single)
  from a new_year_scenario [OF a] show ?thesis by blast
qed

section \<open>Properties of the Date Normalizer\<close>











lemma normalizeDate_cases:
  "normalizeDate s year =
     (case time_Parse ''2 Jan'' s of
        Some t \<Rightarrow> Sprintf_d year @ ''-'' @ Sprintf_02d (Month t) @ ''-'' @ Sprintf_02d (Day_of_month t)
      | None \<Rightarrow>
         (case time_Parse ''2 January'' s of
            Some t \<Rightarrow> Sprintf_d year @ ''-'' @ Sprintf_02d (Month t) @ ''-'' @ Sprintf_02d (Day_of_month t)
          | None \<Rightarrow> Sprintf_d year @ ''-'' @ ReplaceAll s CHR '' '' ''-''))"
  by (simp add: normalizeDate_def split: option.split)

lemma ReplaceAll_single: "ReplaceAll s old [new] = map (\<lambda>c. if c = old then new else c) s"
  by (induction s) (auto simp: ReplaceAll_def)

text \<open>
  C6: when the text parses under neither layout, \<^verbatim>\<open>normalizeDate\<close> returns the year in
  decimal, a hyphen, and the text with every space replaced by a hyphen. The function
  has no other result than a string: it has no error to return.
\<close>

theorem normalizeDate_fallback:
  assumes "time_Parse ''2 Jan'' dateStr = None" and "time_Parse ''2 January'' dateStr = None"
  shows "normalizeDate dateStr year =
           Sprintf_d year @ ''-'' @ map (\<lambda>c. if c = CHR '' '' then CHR ''-'' else c) dateStr"
  using assms by (simp add: normalizeDate_cases ReplaceAll_single)

theorem normalizeDate_fallback_witness:
  "time_Parse ''2 Jan'' ''Hari Raya Puasa'' = None \<and> time_Parse ''2 January'' ''Hari Raya Puasa'' = None
   \<and> normalizeDate ''Hari Raya Puasa'' 2025 = ''2025-Hari-Raya-Puasa''"
proof -
  have a: "time_Parse ''2 Jan'' ''Hari Raya Puasa'' = None" by code_simp
  have b: "time_Parse ''2 January'' ''Hari Raya Puasa'' = None" by code_simp
  have c: "Sprintf_d 2025 = ''2025''" by code_simp
  from a b c normalizeDate_fallback [OF a b, of 2025] show ?thesis by simp
qed




section \<open>Properties of the State-Name Canonicalizer\<close>












section \<open>Properties of the Page Extractor\<close>

lemma rows_loop_filter:
  "rows_loop state year rows holidays =
     holidays @ map (\<lambda>r. \<lparr>Date = normalizeDate (r ! 0) year, Day = r ! 1, Name = r ! 2,
                           States = [normalizeState state]\<rparr>)
                    (filter (\<lambda>r. 3 \<le> length r) rows)"
  by (induction rows arbitrary: holidays) auto

text \<open>
  C9: when the browser returns rows and no error, \<^verbatim>\<open>FetchState\<close> returns no error
  either; its records are those of the rows with at least three cells, in their order,
  and the shorter rows leave nothing behind. With no rows at all the result is empty.
\<close>

theorem FetchState_rows:
  assumes "run (buildURL state year) year = Inr rows"
  shows "FetchState run state year =
           Inr (map (\<lambda>r. \<lparr>Date = normalizeDate (r ! 0) year, Day = r ! 1, Name = r ! 2,
                            States = [normalizeState state]\<rparr>)
                    (filter (\<lambda>r. 3 \<le> length r) rows))
         \<and> (rows = [] \<longrightarrow> FetchState run state year = Inr [])"
  using assms by (simp add: FetchState_def rows_loop_filter)

theorem FetchState_rows_witness:
  "FetchState (\<lambda>url year. Inr [new_year_row, [''Hari Raya'', ''Monday''], []]) ''johor'' 2025
      = Inr [\<lparr>Date = ''2025-01-01'', Day = ''Wednesday'', Name = ''New Year's Day'',
               States = [''johor'']\<rparr>]
   \<and> FetchState (\<lambda>url year. Inr []) ''johor'' 2025 = Inr []"
proof -
  let ?rows = "[new_year_row, [''Hari Raya'', ''Monday''], []]"
  let ?run = "\<lambda>url year. Inr ?rows :: string + string list list"
  let ?none = "\<lambda>url year. Inr [] :: string + string list list"
  have a: "?run (buildURL ''johor'' 2025) (2025::int) = Inr ?rows" by simp
  have b: "?none (buildURL ''johor'' 2025) (2025::int) = Inr []" by simp
  have d: "normalizeDate ''1 Jan'' 2025 = ''2025-01-01''" by code_simp
  have s: "normalizeState ''johor'' = ''johor''" by code_simp
  from FetchState_rows [of ?run "''johor''" 2025 ?rows, OF a]
       FetchState_rows [of ?none "''johor''" 2025 "[]", OF b] d s
  show ?thesis by (simp add: new_year_row_def)
qed

section \<open>Properties of the Pipeline Driver\<close>

lemma fst_main_loop: "fst (main_loop run year sts (fetched, all)) = fetched @ sts"
  by (induction sts arbitrary: fetched all) (auto split: sum.split)

lemma buildURL_national:
  "buildURL ''national'' 2025 = ''https://publicholidays.com.my/national/2025-dates/''"
  by code_simp

text \<open>
  C1: the loop of \<^verbatim>\<open>main\<close> passes every entry of the state list to \<^verbatim>\<open>FetchState\<close>, in
  the order of the list, whatever the browser returns; the first state fetched is
  \<^verbatim>\<open>national\<close>. Nothing in \<^verbatim>\<open>main\<close>, \<^verbatim>\<open>FetchState\<close> or \<^verbatim>\<open>buildURL\<close> leaves it out.
\<close>

theorem main_fetches_national:
  "fst (main run year ks) = states \<and> hd (fst (main run year ks)) = ''national''"
proof -
  have "fst (main run year ks) = fst (main_loop run year states ([], []))"
    by (simp add: main_def split: prod.split)
  then have "fst (main run year ks) = states"
    by (simp add: fst_main_loop)
  then show ?thesis by (simp add: states_def)
qed

end
